theory Spec2Isabelle
  imports
    Complex_Main
    "HOL-Library.Char_ord"
    "HOL-Library.List_Lexorder"
    "HOL-Library.Product_Lexorder"
    "HOL-Library.Multiset"
begin

section \<open>CAGECleaner: the dereplication status table and the recovery of hits\<close>

text \<open>
  The development embeds the status-reconciliation part of \<^verbatim>\<open>cagecleaner.py\<close>:
  \<^verbatim>\<open>parse_dereplication_clusters\<close>, \<^verbatim>\<open>recover_hits\<close> and
  \<^verbatim>\<open>get_dereplicated_scaffolds\<close>.

  Conventions of the embedding.
  \<^item> A pandas data frame is the list of its rows, in row order; its index is a field of the
    row. The status table is built from a Python dict, so its index is unique; theorems
    that depend on this say \<open>distinct (map scaffold t)\<close>.
  \<^item> cblaster scores are Python floats; they are modelled as real numbers, so rounding is
    not part of the model. \<open>NaN\<close> is \<open>None\<close>.
  \<^item> An exception of the source is a value \<open>Inl e\<close> of the result type.
  \<^item> \<^verbatim>\<open>random.choice\<close> reads a random source. The source is a parameter
    \<open>rnd\<close>: the number drawn when choosing from a given list. Two runs of the program
    are two values of \<open>rnd\<close>.
\<close>

subsection \<open>Data\<close>

datatype error = IndexError | KeyError | ValueError

datatype status =
    dereplication_representative
  | readded_by_cluster_content
  | readded_by_outlier_score
  | redundant

text \<open>The strings the source stores in the column \<^verbatim>\<open>dereplication_status\<close>.\<close>

fun status_label :: "status \<Rightarrow> string" where
  "status_label dereplication_representative = ''dereplication_representative''"
| "status_label readded_by_cluster_content = ''readded_by_cluster_content''"
| "status_label readded_by_outlier_score = ''readded_by_outlier_score''"
| "status_label redundant = ''redundant''"

text \<open>A row of the status table: the index (a scaffold ID) and the two columns.\<close>

record cluster_row =
  scaffold :: string
  representative :: string
  dereplication_status :: status

type_synonym status_table = "cluster_row list"

text \<open>
  A row of the cblaster binary table as \<^verbatim>\<open>recover_hits\<close> reads it: the index
  \<^verbatim>\<open>Scaffold\<close>, the homolog counts of the query gene columns (in the order in which
  the source enumerates the set of these columns) and the column \<^verbatim>\<open>Score\<close>.
\<close>

record hit =
  Scaffold :: string
  content :: "int list"
  Score :: real

subsection \<open>Table operations\<close>

text \<open>\<^verbatim>\<open>genome_clusters_mapping.loc[m, 'dereplication_status']\<close>\<close>

definition loc_status :: "status_table \<Rightarrow> string \<Rightarrow> error + status" where
  "loc_status t m =
     (case find (\<lambda>r. scaffold r = m) t of
        None \<Rightarrow> Inl KeyError
      | Some r \<Rightarrow> Inr (dereplication_status r))"

text \<open>\<^verbatim>\<open>[genome_clusters_mapping.loc[m, 'dereplication_status'] for m in ms]\<close>\<close>

fun statuses_of :: "status_table \<Rightarrow> string list \<Rightarrow> error + status list" where
  "statuses_of t [] = Inr []"
| "statuses_of t (m # ms) =
     (case loc_status t m of
        Inl e \<Rightarrow> Inl e
      | Inr s \<Rightarrow> (case statuses_of t ms of Inl e \<Rightarrow> Inl e | Inr ss \<Rightarrow> Inr (s # ss)))"

text \<open>
  \<^verbatim>\<open>updated_mapping.at[s, 'dereplication_status'] = v\<close>, for a label \<open>s\<close> of the
  table (the source only writes labels it has read from the table).
\<close>

definition set_status :: "string \<Rightarrow> status \<Rightarrow> status_table \<Rightarrow> status_table" where
  "set_status s v t = map (\<lambda>r. if scaffold r = s then r\<lparr>dereplication_status := v\<rparr> else r) t"

text \<open>\<^verbatim>\<open>sort_values(by = ['representative', 'dereplication_status'])\<close>: with two keys
  pandas sorts with a stable lexicographic sort.\<close>

definition sort_key_of :: "cluster_row \<Rightarrow> string \<times> string" where
  "sort_key_of r = (representative r, status_label (dereplication_status r))"

definition sort_values :: "status_table \<Rightarrow> status_table" where
  "sort_values t = sort_key sort_key_of t"

text \<open>\<^verbatim>\<open>hits.loc[group]\<close>: the rows of the labels, in the order of the labels;
  a missing label raises. The binary table is taken to hold one row per scaffold: the
  lookup of a label gives its first row.\<close>

fun loc_hits :: "hit list \<Rightarrow> string list \<Rightarrow> error + hit list" where
  "loc_hits hits [] = Inr []"
| "loc_hits hits (s # ss) =
     (case find (\<lambda>h. Scaffold h = s) hits of
        None \<Rightarrow> Inl KeyError
      | Some h \<Rightarrow> (case loc_hits hits ss of Inl e \<Rightarrow> Inl e | Inr hs \<Rightarrow> Inr (h # hs)))"

text \<open>
  \<^verbatim>\<open>reset_index(names = 'scaffold').groupby('representative').agg(list)\<close> zipped into
  a dict: one entry per representative, in sorted order, with the scaffolds of its rows in
  table order.
\<close>

definition genome_groups :: "status_table \<Rightarrow> (string \<times> string list) list" where
  "genome_groups t =
     map (\<lambda>rep. (rep, map scaffold (filter (\<lambda>r. representative r = rep) t)))
         (sort (remdups (map representative t)))"

text \<open>
  \<^verbatim>\<open>hits_this_group.groupby(<query gene columns>).groups.values()\<close>: one group per
  distinct count vector, in sorted order of the vectors, each with its rows in table order.
  A group is kept as its rows; the source keeps the labels and looks the scores up again.
\<close>

definition content_groups :: "hit list \<Rightarrow> hit list list" where
  "content_groups hs =
     map (\<lambda>k. filter (\<lambda>h. content h = k) hs) (sort (remdups (map content hs)))"

subsection \<open>Statistics\<close>

text \<open>\<^verbatim>\<open>Series.mode().iloc[0]\<close>: the most frequent value, the smallest one on a tie.\<close>

definition mode_score :: "real list \<Rightarrow> error + real" where
  "mode_score xs =
     (if xs = [] then Inl IndexError
      else Inr (Min (set (filter (\<lambda>x. count_list xs x = Max (set (map (count_list xs) xs))) xs))))"

definition mean :: "real list \<Rightarrow> real" where
  "mean xs = sum_list xs / real (length xs)"

text \<open>The standard deviation with \<^verbatim>\<open>ddof = 0\<close>: the divisor is the number of values.\<close>

definition std :: "real list \<Rightarrow> real" where
  "std xs = sqrt (sum_list (map (\<lambda>x. (x - mean xs)\<^sup>2) xs) / real (length xs))"

text \<open>
  \<^verbatim>\<open>scores.transform(zscore)\<close> with \<^verbatim>\<open>scipy.stats.zscore\<close> and its defaults
  (\<^verbatim>\<open>ddof = 0\<close>), taken over the scores of one content group, as the comments of
  the source describe it. A group without variance gives \<open>NaN\<close> everywhere.
\<close>

definition zscore :: "real list \<Rightarrow> real option list" where
  "zscore xs =
     (if std xs = 0 then map (\<lambda>_. None) xs
      else map (\<lambda>x. Some ((x - mean xs) / std xs)) xs)"

subsection \<open>The random choice\<close>

text \<open>\<^verbatim>\<open>random.choice(seq)\<close> raises \<^verbatim>\<open>IndexError\<close> on an empty sequence.\<close>

definition choice :: "(string list \<Rightarrow> nat) \<Rightarrow> string list \<Rightarrow> error + string" where
  "choice rnd xs = (if xs = [] then Inl IndexError else Inr (xs ! (rnd xs mod length xs)))"

definition pick_first :: "string list \<Rightarrow> nat" where
  "pick_first xs = 0"


subsection \<open>recover\_hits\<close>

text \<open>
  The mask of lines 402 to 404: absolute z-score at least \<open>outlier_z\<close> and score at least
  \<open>min_score_diff\<close> away from the modal score. A comparison with \<open>NaN\<close> is false.
\<close>

definition is_outlier :: "real \<Rightarrow> real \<Rightarrow> real \<Rightarrow> hit \<times> real option \<Rightarrow> bool" where
  "is_outlier outlier_z min_score_diff mode_sc hz =
     ((case snd hz of None \<Rightarrow> False | Some z \<Rightarrow> \<bar>z\<bar> \<ge> outlier_z)
      \<and> \<bar>Score (fst hz) - mode_sc\<bar> \<ge> min_score_diff)"

definition outliers :: "real \<Rightarrow> real \<Rightarrow> real \<Rightarrow> hit list \<Rightarrow> string list" where
  "outliers outlier_z min_score_diff mode_sc g =
     map (\<lambda>hz. Scaffold (fst hz))
         (filter (is_outlier outlier_z min_score_diff mode_sc) (zip g (zscore (map Score g))))"

text \<open>The loop of lines 407 to 413 over the outliers.\<close>

fun flag_outliers :: "status_table \<Rightarrow> string list \<Rightarrow> status_table \<Rightarrow> error + status_table" where
  "flag_outliers base [] upd = Inr upd"
| "flag_outliers base (out # outs) upd =
     (case loc_status base out of
        Inl e \<Rightarrow> Inl e
      | Inr st \<Rightarrow>
          if st = dereplication_representative then flag_outliers base outs upd
          else flag_outliers base outs (set_status out readded_by_outlier_score upd))"

text \<open>
  Lines 387 to 394, and again lines 419 to 427: unless one of the members is a scaffold of
  the dereplication representative, a random member is flagged.
\<close>

definition flag_representative ::
  "status_table \<Rightarrow> (string list \<Rightarrow> nat) \<Rightarrow> string list \<Rightarrow> status_table \<Rightarrow> error + status_table" where
  "flag_representative base rnd members upd =
     (case statuses_of base members of
        Inl e \<Rightarrow> Inl e
      | Inr sts \<Rightarrow>
          if dereplication_representative \<in> set sts then Inr upd
          else (case choice rnd members of
                  Inl e \<Rightarrow> Inl e
                | Inr c \<Rightarrow> Inr (set_status c readded_by_cluster_content upd)))"

text \<open>The body of the loop over the content groups, lines 376 to 427.\<close>

definition recover_content_group ::
  "status_table \<Rightarrow> bool \<Rightarrow> real \<Rightarrow> real \<Rightarrow> (string list \<Rightarrow> nat) \<Rightarrow> hit list \<Rightarrow> status_table
   \<Rightarrow> error + status_table" where
  "recover_content_group base not_by_score outlier_z min_score_diff rnd g upd =
     (case mode_score (map Score g) of
        Inl e \<Rightarrow> Inl e
      | Inr mode_sc \<Rightarrow>
          if not_by_score \<or> list_all (\<lambda>z. z = None) (zscore (map Score g))
          then flag_representative base rnd (map Scaffold g) upd
          else
            (case flag_outliers base (outliers outlier_z min_score_diff mode_sc g) upd of
               Inl e \<Rightarrow> Inl e
             | Inr upd' \<Rightarrow>
                 flag_representative base rnd
                   (filter (\<lambda>m. m \<notin> set (outliers outlier_z min_score_diff mode_sc g))
                           (map Scaffold g))
                   upd'))"

fun recover_groups ::
  "status_table \<Rightarrow> bool \<Rightarrow> real \<Rightarrow> real \<Rightarrow> (string list \<Rightarrow> nat) \<Rightarrow> hit list list \<Rightarrow> status_table
   \<Rightarrow> error + status_table" where
  "recover_groups base nbs oz msd rnd [] upd = Inr upd"
| "recover_groups base nbs oz msd rnd (g # gs) upd =
     (case recover_content_group base nbs oz msd rnd g upd of
        Inl e \<Rightarrow> Inl e
      | Inr upd' \<Rightarrow> recover_groups base nbs oz msd rnd gs upd')"

text \<open>
  The loop over the dereplication clusters, lines 364 to 427. The order in which the
  content groups of a cluster are visited is the parameter \<open>grouping\<close>; the source
  visits them as \<open>content_groups\<close> lists them.
\<close>

fun recover_clusters ::
  "hit list \<Rightarrow> status_table \<Rightarrow> bool \<Rightarrow> real \<Rightarrow> real \<Rightarrow> (string list \<Rightarrow> nat)
   \<Rightarrow> (hit list \<Rightarrow> hit list list) \<Rightarrow> (string \<times> string list) list \<Rightarrow> status_table
   \<Rightarrow> error + status_table" where
  "recover_clusters hits base nbs oz msd rnd grouping [] upd = Inr upd"
| "recover_clusters hits base nbs oz msd rnd grouping (c # cs) upd =
     (case loc_hits hits (snd c) of
        Inl e \<Rightarrow> Inl e
      | Inr hits_this_group \<Rightarrow>
          (case recover_groups base nbs oz msd rnd (grouping hits_this_group) upd of
             Inl e \<Rightarrow> Inl e
           | Inr upd' \<Rightarrow> recover_clusters hits base nbs oz msd rnd grouping cs upd'))"

text \<open>
  \<^verbatim>\<open>recover_hits\<close> with the order of the two loops as parameters, and the function of
  the source, which takes the orders from the two \<^verbatim>\<open>groupby\<close> calls.
\<close>

definition recover_hits_in_order ::
  "(string \<times> string list) list \<Rightarrow> (hit list \<Rightarrow> hit list list)
   \<Rightarrow> hit list \<Rightarrow> status_table \<Rightarrow> bool \<Rightarrow> bool \<Rightarrow> real \<Rightarrow> real \<Rightarrow> (string list \<Rightarrow> nat)
   \<Rightarrow> error + status_table" where
  "recover_hits_in_order clusters grouping hits genome_clusters_mapping
       not_by_content not_by_score outlier_z min_score_diff rnd =
     (if \<not> not_by_content then
        (case recover_clusters hits genome_clusters_mapping not_by_score outlier_z min_score_diff
                rnd grouping clusters genome_clusters_mapping of
           Inl e \<Rightarrow> Inl e
         | Inr updated_mapping \<Rightarrow> Inr (sort_values updated_mapping))
      else Inr (sort_values genome_clusters_mapping))"

definition recover_hits ::
  "hit list \<Rightarrow> status_table \<Rightarrow> bool \<Rightarrow> bool \<Rightarrow> real \<Rightarrow> real \<Rightarrow> (string list \<Rightarrow> nat)
   \<Rightarrow> error + status_table" where
  "recover_hits hits genome_clusters_mapping not_by_content not_by_score outlier_z
       min_score_diff rnd =
     recover_hits_in_order (genome_groups genome_clusters_mapping) content_groups
       hits genome_clusters_mapping not_by_content not_by_score outlier_z min_score_diff rnd"

subsection \<open>get\_dereplicated\_scaffolds\<close>

definition get_dereplicated_scaffolds :: "status_table \<Rightarrow> string list" where
  "get_dereplicated_scaffolds genome_clusters =
     map scaffold (filter (\<lambda>r. dereplication_status r \<noteq> redundant) genome_clusters)"

subsection \<open>parse\_dereplication\_clusters\<close>

text \<open>
  \<^verbatim>\<open>re.compile("GC[A|F]_[0-9]{9}\\.[1-9]+")\<close> matched at the start of a string: the
  letters \<open>GC\<close>, one of the characters \<open>A\<close>, \<open>|\<close>, \<open>F\<close>, an underscore, nine
  digits, a dot, and the longest non-empty run of the digits 1 to 9.
\<close>

definition match_here :: "string \<Rightarrow> string option" where
  "match_here s =
     (if 14 \<le> length s \<and> take 2 s = ''GC'' \<and> s ! 2 \<in> set ''A|F'' \<and> s ! 3 = CHR ''_''
         \<and> list_all (\<lambda>c. c \<in> set ''0123456789'') (take 9 (drop 4 s))
         \<and> s ! 13 = CHR ''.''
         \<and> takeWhile (\<lambda>c. c \<in> set ''123456789'') (drop 14 s) \<noteq> []
      then Some (take 14 s @ takeWhile (\<lambda>c. c \<in> set ''123456789'') (drop 14 s))
      else None)"

text \<open>The first element of \<^verbatim>\<open>pattern.findall(path)\<close>, if there is one: the leftmost match.\<close>

fun findall_first :: "string \<Rightarrow> string option" where
  "findall_first [] = None"
| "findall_first (c # cs) =
     (case match_here (c # cs) of Some m \<Rightarrow> Some m | None \<Rightarrow> findall_first cs)"

text \<open>\<^verbatim>\<open>pattern.findall(path)[0]\<close>: indexing the empty list of matches raises.\<close>

definition extract_assembly :: "string \<Rightarrow> error + string" where
  "extract_assembly path =
     (case findall_first path of None \<Rightarrow> Inl IndexError | Some assembly \<Rightarrow> Inr assembly)"

text \<open>\<^verbatim>\<open>mapping[label]\<close> on the dict of the two skDER labels.\<close>

definition remap_type_label :: "string \<Rightarrow> error + status" where
  "remap_type_label label =
     (if label = ''representative_to_self'' then Inr dereplication_representative
      else if label = ''within_cutoffs_requested'' then Inr redundant
      else Inl KeyError)"

text \<open>The dict \<^verbatim>\<open>scaffold_assembly_pairs\<close> is the list of its items.\<close>

definition map_scaffolds :: "string \<Rightarrow> (string \<times> string) list \<Rightarrow> string list" where
  "map_scaffolds assembly scaffold_assembly_pairs =
     map fst (filter (\<lambda>sa. snd sa = assembly) scaffold_assembly_pairs)"

text \<open>A converter of \<^verbatim>\<open>read_table\<close> applied to a column; the first failure raises.\<close>

fun convert :: "('a \<Rightarrow> error + 'b) \<Rightarrow> 'a list \<Rightarrow> error + 'b list" where
  "convert f [] = Inr []"
| "convert f (x # xs) =
     (case f x of
        Inl e \<Rightarrow> Inl e
      | Inr y \<Rightarrow> (case convert f xs of Inl e \<Rightarrow> Inl e | Inr ys \<Rightarrow> Inr (y # ys)))"

text \<open>
  \<^verbatim>\<open>genome_clusters[scaffold] = data\<close> on the dict that becomes the status table: a
  new key is appended, an old key keeps its place and takes the new data.
\<close>

definition dict_set :: "cluster_row \<Rightarrow> status_table \<Rightarrow> status_table" where
  "dict_set r t =
     (if scaffold r \<in> set (map scaffold t)
      then map (\<lambda>x. if scaffold x = scaffold r then r else x) t
      else t @ [r])"

text \<open>The loop of lines 302 to 305 for one record of the assembly-keyed dict.\<close>

definition add_record ::
  "(string \<times> string) list \<Rightarrow> string \<times> string \<times> status \<Rightarrow> status_table \<Rightarrow> status_table" where
  "add_record scaffold_assembly_pairs rec genome_clusters =
     fold (\<lambda>s. dict_set \<lparr>scaffold = s, representative = fst (snd rec),
                          dereplication_status = snd (snd rec)\<rparr>)
          (map_scaffolds (fst rec) scaffold_assembly_pairs) genome_clusters"

text \<open>
  The skDER clustering table is the list of its data rows, each with the columns 0, 1 and 4
  the source reads. The converters run column by column, in file order. The frame is sorted,
  turned into a dict keyed by assembly (\<^verbatim>\<open>to_dict(orient = 'index')\<close> raises
  \<^verbatim>\<open>ValueError\<close> on a duplicated index), expanded to scaffolds and sorted again.
  The report of the cluster sizes is a file and is left out.
\<close>

definition parse_dereplication_clusters ::
  "(string \<times> string \<times> string) list \<Rightarrow> (string \<times> string) list \<Rightarrow> error + status_table" where
  "parse_dereplication_clusters skder scaffold_assembly_pairs =
     (case convert extract_assembly (map fst skder) of
        Inl e \<Rightarrow> Inl e
      | Inr assemblies \<Rightarrow>
     (case convert extract_assembly (map (\<lambda>r. fst (snd r)) skder) of
        Inl e \<Rightarrow> Inl e
      | Inr representatives \<Rightarrow>
     (case convert remap_type_label (map (\<lambda>r. snd (snd r)) skder) of
        Inl e \<Rightarrow> Inl e
      | Inr statuses \<Rightarrow>
          let genome_clusters_df =
                sort_key (\<lambda>r. (fst (snd r), status_label (snd (snd r))))
                         (zip assemblies (zip representatives statuses))
          in if \<not> distinct (map fst genome_clusters_df) then Inl ValueError
             else Inr (sort_values
                         (fold (add_record scaffold_assembly_pairs) genome_clusters_df [])))))"

text \<open>
  The last steps of \<^verbatim>\<open>main\<close>: the status table is parsed, then recovered, then
  filtered. An exception of a step ends the run.
\<close>

definition main_from_parsing ::
  "(string \<times> string \<times> string) list \<Rightarrow> (string \<times> string) list \<Rightarrow> hit list
   \<Rightarrow> bool \<Rightarrow> bool \<Rightarrow> real \<Rightarrow> real \<Rightarrow> (string list \<Rightarrow> nat) \<Rightarrow> error + string list" where
  "main_from_parsing skder scaffold_assembly_pairs hits no_revisit_by_content
       no_revisit_by_score outlier_z min_score_diff rnd =
     (case parse_dereplication_clusters skder scaffold_assembly_pairs of
        Inl e \<Rightarrow> Inl e
      | Inr genome_cluster_composition \<Rightarrow>
          (case recover_hits hits genome_cluster_composition no_revisit_by_content
                  no_revisit_by_score outlier_z min_score_diff rnd of
             Inl e \<Rightarrow> Inl e
           | Inr updated_status \<Rightarrow> Inr (get_dereplicated_scaffolds updated_status)))"

subsection \<open>Reading a status table\<close>

text \<open>The status a table gives a scaffold: the status of the first row with that label.\<close>

definition status_in :: "status_table \<Rightarrow> string \<Rightarrow> status option" where
  "status_in t s = map_option dereplication_status (find (\<lambda>r. scaffold r = s) t)"

text \<open>
  A row \<open>u\<close> of the updated table against the row \<open>b\<close> of the base table at the same
  position: same scaffold, same representative, and the status either kept or, for a row that
  is not a representative, replaced by one of the two recovery statuses.
\<close>

definition upgraded_row :: "cluster_row \<Rightarrow> cluster_row \<Rightarrow> bool" where
  "upgraded_row b u \<longleftrightarrow>
     scaffold u = scaffold b \<and> representative u = representative b \<and>
     (dereplication_status u = dereplication_status b \<or>
      (dereplication_status b \<noteq> dereplication_representative \<and>
       dereplication_status u \<in> {readded_by_cluster_content, readded_by_outlier_score}))"

text \<open>
  The tables \<^verbatim>\<open>parse_dereplication_clusters\<close> documents as its result: every status is
  \<^verbatim>\<open>dereplication_representative\<close> or \<^verbatim>\<open>redundant\<close>.
\<close>

definition base_table :: "status_table \<Rightarrow> bool" where
  "base_table t \<longleftrightarrow>
     list_all (\<lambda>r. dereplication_status r = dereplication_representative
                 \<or> dereplication_status r = redundant) t"

subsection \<open>The z-score as the specification words it\<close>

text \<open>
  The specification describes the z-score with the sample standard deviation, whose divisor
  is the number of values minus one. This is that standard deviation, for comparison with
  \<open>std\<close>.
\<close>

definition sample_std :: "real list \<Rightarrow> real" where
  "sample_std xs = sqrt (sum_list (map (\<lambda>x. (x - mean xs)\<^sup>2) xs) / (real (length xs) - 1))"

subsection \<open>Example tables\<close>

text \<open>
  One dereplication cluster \<open>A\<close> of three scaffolds. \<open>s1\<close> belongs to the representative
  assembly; \<open>s2\<close> and \<open>s3\<close> share a content that differs from the one of \<open>s1\<close> and
  have scores 1 and 3.
\<close>

definition ex_hits :: "hit list" where
  "ex_hits =
     [\<lparr>Scaffold = ''s1'', content = [2, 1], Score = 5\<rparr>,
      \<lparr>Scaffold = ''s2'', content = [3, 1], Score = 1\<rparr>,
      \<lparr>Scaffold = ''s3'', content = [3, 1], Score = 3\<rparr>]"

definition ex_base :: status_table where
  "ex_base =
     [\<lparr>scaffold = ''s1'', representative = ''A'',
        dereplication_status = dereplication_representative\<rparr>,
      \<lparr>scaffold = ''s2'', representative = ''A'', dereplication_status = redundant\<rparr>,
      \<lparr>scaffold = ''s3'', representative = ''A'', dereplication_status = redundant\<rparr>]"

definition ex_recovered :: status_table where
  "ex_recovered =
     [\<lparr>scaffold = ''s1'', representative = ''A'',
        dereplication_status = dereplication_representative\<rparr>,
      \<lparr>scaffold = ''s2'', representative = ''A'',
        dereplication_status = readded_by_cluster_content\<rparr>,
      \<lparr>scaffold = ''s3'', representative = ''A'',
        dereplication_status = readded_by_outlier_score\<rparr>]"



text \<open>
  Scenario C of the specification: one content group without a scaffold of the representative,
  with scores 5, 5, 5 and 9; and the table a run that draws the first member returns.
\<close>

definition scenC_hits :: "hit list" where
  "scenC_hits =
     [\<lparr>Scaffold = ''h1'', content = [1], Score = 5\<rparr>,
      \<lparr>Scaffold = ''h2'', content = [1], Score = 5\<rparr>,
      \<lparr>Scaffold = ''h3'', content = [1], Score = 5\<rparr>,
      \<lparr>Scaffold = ''h4'', content = [1], Score = 9\<rparr>]"

definition scenC_base :: status_table where
  "scenC_base =
     [\<lparr>scaffold = ''h1'', representative = ''A'', dereplication_status = redundant\<rparr>,
      \<lparr>scaffold = ''h2'', representative = ''A'', dereplication_status = redundant\<rparr>,
      \<lparr>scaffold = ''h3'', representative = ''A'', dereplication_status = redundant\<rparr>,
      \<lparr>scaffold = ''h4'', representative = ''A'', dereplication_status = redundant\<rparr>]"

definition scenC_first :: status_table where
  "scenC_first =
     [\<lparr>scaffold = ''h1'', representative = ''A'', dereplication_status = readded_by_cluster_content\<rparr>,
      \<lparr>scaffold = ''h2'', representative = ''A'', dereplication_status = redundant\<rparr>,
      \<lparr>scaffold = ''h3'', representative = ''A'', dereplication_status = redundant\<rparr>,
      \<lparr>scaffold = ''h4'', representative = ''A'', dereplication_status = redundant\<rparr>]"




text \<open>
  A clustering table of two assemblies with the scaffolds of their hits and the status table
  parsed from them; and a clustering table whose second record has a path without an
  accession.
\<close>

definition ex_skder :: "(string \<times> string \<times> string) list" where
  "ex_skder =
     [(''g/GCA_000000001.1_a.fna'', ''g/GCA_000000001.1_a.fna'', ''representative_to_self''),
      (''g/GCF_000000002.12.fna'', ''g/GCA_000000001.1_a.fna'', ''within_cutoffs_requested'')]"

definition ex_pairs :: "(string \<times> string) list" where
  "ex_pairs = [(''s1'', ''GCA_000000001.1''), (''s2'', ''GCF_000000002.12''), (''s3'', ''GCF_000000002.12'')]"

definition ex_parsed :: status_table where
  "ex_parsed =
     [\<lparr>scaffold = ''s1'', representative = ''GCA_000000001.1'',
        dereplication_status = dereplication_representative\<rparr>,
      \<lparr>scaffold = ''s2'', representative = ''GCA_000000001.1'', dereplication_status = redundant\<rparr>,
      \<lparr>scaffold = ''s3'', representative = ''GCA_000000001.1'', dereplication_status = redundant\<rparr>]"

definition bad_skder :: "(string \<times> string \<times> string) list" where
  "bad_skder =
     [(''g/GCA_000000001.1_a.fna'', ''g/GCA_000000001.1_a.fna'', ''representative_to_self''),
      (''g/GCF_00002.1.fna'', ''g/GCA_000000001.1_a.fna'', ''within_cutoffs_requested'')]"








subsection \<open>The effect of one content group\<close>








section \<open>Properties\<close>

subsection \<open>Lookups\<close>

lemma loc_status_status_in:
  "loc_status t m = (case status_in t m of None \<Rightarrow> Inl KeyError | Some s \<Rightarrow> Inr s)"
  by (simp add: loc_status_def status_in_def split: option.splits)

lemma find_distinct_key:
  assumes "distinct (map f xs)" "x \<in> set xs"
  shows "find (\<lambda>r. f r = f x) xs = Some x"
  using assms by (induction xs) auto

lemma status_in_member:
  "distinct (map scaffold t) \<Longrightarrow> r \<in> set t \<Longrightarrow> status_in t (scaffold r) = Some (dereplication_status r)"
  by (simp add: status_in_def find_distinct_key)

lemma status_in_None: "status_in t s = None \<longleftrightarrow> s \<notin> scaffold ` set t"
  by (auto simp: status_in_def find_None_iff)

lemma status_in_Some_member:
  "status_in t s = Some st \<Longrightarrow> \<exists>r\<in>set t. scaffold r = s \<and> dereplication_status r = st"
  by (auto simp: status_in_def find_Some_iff)

lemma status_in_perm:
  assumes "distinct (map scaffold t)" "mset t' = mset t"
  shows "status_in t' s = status_in t s"
proof -
  have d': "distinct (map scaffold t')"
    using assms by (metis distinct_map mset_eq_setD mset_eq_imp_distinct_iff  mset_map)
  have st: "set t' = set t" using assms(2) by (rule mset_eq_setD)
  show ?thesis
  proof (cases "status_in t s")
    case None
    then show ?thesis using st status_in_None[of t s] status_in_None[of t' s] by simp
  next
    case (Some a)
    then obtain r where "r \<in> set t" "scaffold r = s" "dereplication_status r = a"
      using status_in_Some_member by blast
    then show ?thesis using Some status_in_member[OF d', of r] st by simp
  qed
qed

lemma upgraded_row_refl: "upgraded_row b b"
  by (simp add: upgraded_row_def)

lemma upgraded_refl: "list_all2 upgraded_row t t"
  by (simp add: list_all2_refl upgraded_row_refl)

lemma set_status_upgraded:
  assumes "list_all2 upgraded_row base upd"
    and "v \<in> {readded_by_cluster_content, readded_by_outlier_score}"
    and "\<forall>b\<in>set base. scaffold b = c \<longrightarrow> dereplication_status b \<noteq> dereplication_representative"
  shows "list_all2 upgraded_row base (set_status c v upd)"
  using assms unfolding set_status_def
  by (induction base upd rule: list_all2_induct) (auto simp: upgraded_row_def)

lemma loc_status_all:
  assumes "distinct (map scaffold base)" "loc_status base c = Inr st"
  shows "\<forall>b\<in>set base. scaffold b = c \<longrightarrow> dereplication_status b = st"
  using assms status_in_member[OF assms(1)]
  by (auto simp: loc_status_status_in split: option.splits)

lemma flag_outliers_upgraded:
  assumes "distinct (map scaffold base)"
  shows "list_all2 upgraded_row base upd \<Longrightarrow> flag_outliers base outs upd = Inr upd'
     \<Longrightarrow> list_all2 upgraded_row base upd'"
proof (induction outs arbitrary: upd)
  case Nil
  then show ?case by simp
next
  case (Cons out outs)
  show ?case
  proof (cases "loc_status base out")
    case (Inl a)
    then show ?thesis using Cons.prems by simp
  next
    case (Inr st)
    show ?thesis
    proof (cases "st = dereplication_representative")
      case True
      then show ?thesis using Cons Inr by simp
    next
      case False
      have "list_all2 upgraded_row base (set_status out readded_by_outlier_score upd)"
        using loc_status_all[OF assms Inr] False Cons.prems(1)
        by (intro set_status_upgraded) auto
      then show ?thesis using Cons.IH Cons.prems(2) Inr False by simp
    qed
  qed
qed

lemma statuses_of_member:
  "statuses_of base ms = Inr sts \<Longrightarrow> c \<in> set ms \<Longrightarrow> \<exists>st\<in>set sts. loc_status base c = Inr st"
  by (induction ms arbitrary: sts) (auto split: sum.splits)

lemma choice_member: "choice rnd xs = Inr c \<Longrightarrow> c \<in> set xs"
  by (auto simp: choice_def split: if_splits)

lemma flag_representative_upgraded:
  assumes "distinct (map scaffold base)" "list_all2 upgraded_row base upd"
    "flag_representative base rnd ms upd = Inr upd'"
  shows "list_all2 upgraded_row base upd'"
proof (cases "statuses_of base ms")
  case (Inl a)
  then show ?thesis using assms by (simp add: flag_representative_def)
next
  case (Inr sts)
  show ?thesis
  proof (cases "dereplication_representative \<in> set sts")
    case True
    then show ?thesis using assms Inr by (simp add: flag_representative_def)
  next
    case False
    then obtain c where c: "choice rnd ms = Inr c"
      "upd' = set_status c readded_by_cluster_content upd"
      using assms Inr by (auto simp: flag_representative_def split: sum.splits)
    then obtain st where "st \<in> set sts" "loc_status base c = Inr st"
      using statuses_of_member[OF Inr] choice_member by blast
    then have "\<forall>b\<in>set base. scaffold b = c \<longrightarrow> dereplication_status b \<noteq> dereplication_representative"
      using loc_status_all[OF assms(1)] False by metis
    then show ?thesis using c assms(2) by (simp add: set_status_upgraded)
  qed
qed

lemma recover_content_group_upgraded:
  assumes "distinct (map scaffold base)" "list_all2 upgraded_row base upd"
    "recover_content_group base nbs oz msd rnd g upd = Inr upd'"
  shows "list_all2 upgraded_row base upd'"
  using assms
  by (auto simp: recover_content_group_def split: sum.splits if_splits
      dest: flag_representative_upgraded flag_outliers_upgraded)

lemma recover_groups_upgraded:
  assumes "distinct (map scaffold base)"
  shows "list_all2 upgraded_row base upd \<Longrightarrow> recover_groups base nbs oz msd rnd gs upd = Inr upd'
    \<Longrightarrow> list_all2 upgraded_row base upd'"
  by (induction gs arbitrary: upd)
     (auto split: sum.splits dest: recover_content_group_upgraded[OF assms])

lemma recover_clusters_upgraded:
  assumes "distinct (map scaffold base)"
  shows "list_all2 upgraded_row base upd
    \<Longrightarrow> recover_clusters hits base nbs oz msd rnd grouping cs upd = Inr upd'
    \<Longrightarrow> list_all2 upgraded_row base upd'"
  by (induction cs arbitrary: upd)
     (auto split: sum.splits dest: recover_groups_upgraded[OF assms])

lemma recover_hits_in_order_upgraded:
  assumes "distinct (map scaffold base)"
    "recover_hits_in_order cs grouping hits base nbc nbs oz msd rnd = Inr t'"
  shows "\<exists>upd. list_all2 upgraded_row base upd \<and> t' = sort_values upd"
proof (cases nbc)
  case True
  then show ?thesis using assms(2) upgraded_refl[of base]
    by (auto simp: recover_hits_in_order_def)
next
  case False
  then obtain upd where u: "recover_clusters hits base nbs oz msd rnd grouping cs base = Inr upd"
    "t' = sort_values upd"
    using assms(2) by (auto simp: recover_hits_in_order_def split: sum.splits)
  show ?thesis using recover_clusters_upgraded[OF assms(1) upgraded_refl u(1)] u(2) by blast
qed

lemma upgraded_scaffolds: "list_all2 upgraded_row base upd \<Longrightarrow> map scaffold upd = map scaffold base"
  by (induction rule: list_all2_induct) (auto simp: upgraded_row_def)

lemma status_in_Nil: "status_in [] s = None"
  by (simp add: status_in_def)

lemma status_in_Cons:
  "status_in (r # t) s = (if scaffold r = s then Some (dereplication_status r) else status_in t s)"
  by (simp add: status_in_def)

lemma upgraded_status_in:
  "list_all2 upgraded_row base upd \<Longrightarrow>
    (case status_in base s of
       None \<Rightarrow> status_in upd s = None
     | Some b \<Rightarrow> (\<exists>u. status_in upd s = Some u \<and>
          (u = b \<or> (b \<noteq> dereplication_representative \<and>
             u \<in> {readded_by_cluster_content, readded_by_outlier_score}))))"
  by (induction rule: list_all2_induct)
     (auto simp: upgraded_row_def status_in_Nil status_in_Cons split: option.splits)

lemma mset_sort_values: "mset (sort_values t) = mset t"
  by (simp add: sort_values_def)

lemma status_in_sort_values:
  "distinct (map scaffold t) \<Longrightarrow> status_in (sort_values t) s = status_in t s"
  by (rule status_in_perm) (simp_all add: mset_sort_values)

lemma recover_hits_in_order_status:
  assumes "distinct (map scaffold base)"
    "recover_hits_in_order cs grouping hits base nbc nbs oz msd rnd = Inr t'"
  shows "(case status_in base s of
       None \<Rightarrow> status_in t' s = None
     | Some b \<Rightarrow> (\<exists>u. status_in t' s = Some u \<and>
          (u = b \<or> (b \<noteq> dereplication_representative \<and>
             u \<in> {readded_by_cluster_content, readded_by_outlier_score}))))"
proof -
  obtain upd where u: "list_all2 upgraded_row base upd" "t' = sort_values upd"
    using recover_hits_in_order_upgraded[OF assms] by blast
  have "distinct (map scaffold upd)" using upgraded_scaffolds[OF u(1)] assms(1) by simp
  then have "status_in t' s = status_in upd s" using u(2) by (simp add: status_in_sort_values)
  then show ?thesis using upgraded_status_in[OF u(1), of s] by (simp split: option.splits)
qed

subsection \<open>The example run\<close>

lemmas eval_defs =
  recover_hits_def recover_hits_in_order_def genome_groups_def content_groups_def
  recover_content_group_def mode_score_def zscore_def std_def mean_def
  flag_representative_def loc_status_def outliers_def is_outlier_def choice_def
  set_status_def sort_values_def sort_key_of_def

lemma ex_run:
  "recover_hits ex_hits ex_base False False 1 (1 / 10) rnd = Inr ex_recovered"
  by (simp add: eval_defs ex_hits_def ex_base_def ex_recovered_def)

lemma ex_base_distinct: "distinct (map scaffold ex_base)"
  by (simp add: ex_base_def)

subsection \<open>Recovery only adds\<close>

text \<open>
  Claim C2. Recovery is monotonic and additive. On a status table keyed by scaffold, when
  \<open>recover_hits\<close> returns: every scaffold that was not redundant before is not redundant
  after; a scaffold with status representative keeps it; a status that changed was not
  representative and has become \<open>readded_by_cluster_content\<close> or
  \<open>readded_by_outlier_score\<close>; and on a base table (statuses representative and
  redundant only) a status that changed was redundant.
\<close>

theorem recover_hits_monotonic:
  assumes "distinct (map scaffold base)"
    and "recover_hits hits base not_by_content not_by_score outlier_z min_score_diff rnd = Inr t'"
  shows "{s. \<exists>st. status_in base s = Some st \<and> st \<noteq> redundant}
           \<subseteq> {s. \<exists>st. status_in t' s = Some st \<and> st \<noteq> redundant}
       \<and> (\<forall>s. status_in base s = Some dereplication_representative
              \<longrightarrow> status_in t' s = Some dereplication_representative)
       \<and> (\<forall>s. status_in t' s \<noteq> status_in base s \<longrightarrow>
              status_in base s \<noteq> None
              \<and> status_in base s \<noteq> Some dereplication_representative
              \<and> (status_in t' s = Some readded_by_cluster_content
                 \<or> status_in t' s = Some readded_by_outlier_score))
       \<and> (base_table base \<longrightarrow>
            (\<forall>s. status_in t' s \<noteq> status_in base s \<longrightarrow> status_in base s = Some redundant))"
proof -
  note R = recover_hits_in_order_status[OF assms(1) assms(2)[unfolded recover_hits_def]]
  have a: "{s. \<exists>st. status_in base s = Some st \<and> st \<noteq> redundant}
           \<subseteq> {s. \<exists>st. status_in t' s = Some st \<and> st \<noteq> redundant}"
  proof
    fix x assume "x \<in> {s. \<exists>st. status_in base s = Some st \<and> st \<noteq> redundant}"
    then show "x \<in> {s. \<exists>st. status_in t' s = Some st \<and> st \<noteq> redundant}"
      using R[of x] by auto
  qed
  have b: "status_in t' s = Some dereplication_representative"
    if "status_in base s = Some dereplication_representative" for s
    using R[of s] that by auto
  have c: "status_in base s \<noteq> None \<and> status_in base s \<noteq> Some dereplication_representative
           \<and> (status_in t' s = Some readded_by_cluster_content
              \<or> status_in t' s = Some readded_by_outlier_score)"
    if "status_in t' s \<noteq> status_in base s" for s
    using R[of s] that by (auto split: option.splits)
  have d: "status_in base s = Some redundant"
    if bt: "base_table base" and ch: "status_in t' s \<noteq> status_in base s" for s
  proof -
    from c[OF ch] obtain st where st: "status_in base s = Some st"
      "st \<noteq> dereplication_representative"
      by auto
    then obtain r where "r \<in> set base" "dereplication_status r = st"
      using status_in_Some_member by blast
    then show ?thesis using bt st by (auto simp: base_table_def list_all_iff)
  qed
  show ?thesis using a b c d by blast
qed

theorem recover_hits_monotonic_witness:
  "distinct (map scaffold ex_base)
   \<and> recover_hits ex_hits ex_base False False 1 (1 / 10) pick_first = Inr ex_recovered
   \<and> base_table ex_base
   \<and> status_in ex_base ''s1'' = Some dereplication_representative
   \<and> status_in ex_recovered ''s1'' = Some dereplication_representative
   \<and> status_in ex_recovered ''s2'' \<noteq> status_in ex_base ''s2''
   \<and> status_in ex_base ''s2'' = Some redundant
   \<and> {s. \<exists>st. status_in ex_base s = Some st \<and> st \<noteq> redundant}
        \<subseteq> {s. \<exists>st. status_in ex_recovered s = Some st \<and> st \<noteq> redundant}"
proof -
  have bt: "base_table ex_base" by (simp add: base_table_def ex_base_def)
  have ch: "status_in ex_recovered ''s2'' \<noteq> status_in ex_base ''s2''"
    by (simp add: status_in_def ex_recovered_def ex_base_def)
  have s1: "status_in ex_base ''s1'' = Some dereplication_representative"
    by (simp add: status_in_def ex_base_def)
  note M = recover_hits_monotonic[OF ex_base_distinct ex_run[of pick_first]]
  from M s1 have "status_in ex_recovered ''s1'' = Some dereplication_representative" by blast
  moreover from M bt ch have "status_in ex_base ''s2'' = Some redundant" by blast
  moreover from M have "{s. \<exists>st. status_in ex_base s = Some st \<and> st \<noteq> redundant}
        \<subseteq> {s. \<exists>st. status_in ex_recovered s = Some st \<and> st \<noteq> redundant}" by blast
  ultimately show ?thesis using ex_base_distinct ex_run[of pick_first] bt ch s1 by blast
qed

subsection \<open>The returned table is sorted\<close>


lemma sorted_sort_values: "sorted (map sort_key_of (sort_values u))"
  by (simp add: sort_values_def)

lemma sort_values_sorted: "sorted (map sort_key_of t) \<Longrightarrow> sort_values t = t"
  by (simp add: sort_values_def sort_key_id_if_sorted)

lemma set_sort_values: "set (sort_values t) = set t"
  by (simp add: sort_values_def)

subsection \<open>The z-score\<close>

lemma sum_list_const:
  "\<forall>x\<in>set xs. x = c \<Longrightarrow> sum_list xs = real (length xs) * (c::real)"
  by (induction xs) (auto simp: algebra_simps)

lemma std_zero_iff:
  assumes "xs \<noteq> []"
  shows "std xs = 0 \<longleftrightarrow> (\<forall>x\<in>set xs. x = mean xs)"
proof -
  have n: "real (length xs) > 0" using assms by simp
  have "std xs = 0 \<longleftrightarrow> sum_list (map (\<lambda>x. (x - mean xs)\<^sup>2) xs) = 0"
    using n by (simp add: std_def)
  also have "\<dots> \<longleftrightarrow> (\<forall>y\<in>set (map (\<lambda>x. (x - mean xs)\<^sup>2) xs). y = 0)"
    by (rule sum_list_nonneg_eq_0_iff) auto
  also have "\<dots> \<longleftrightarrow> (\<forall>x\<in>set xs. x = mean xs)" by auto
  finally show ?thesis .
qed

lemma mean_const:
  assumes "xs \<noteq> []" "\<forall>x\<in>set xs. x = c"
  shows "mean xs = c"
  using assms sum_list_const[OF assms(2)] by (simp add: mean_def)

lemma std_zero_iff_constant:
  assumes "xs \<noteq> []"
  shows "std xs = 0 \<longleftrightarrow> (\<forall>x\<in>set xs. \<forall>y\<in>set xs. x = y)"
proof
  assume "std xs = 0"
  then have "\<forall>x\<in>set xs. x = mean xs" using std_zero_iff[OF assms] by simp
  then show "\<forall>x\<in>set xs. \<forall>y\<in>set xs. x = y" by metis
next
  assume a: "\<forall>x\<in>set xs. \<forall>y\<in>set xs. x = y"
  have "hd xs \<in> set xs" using assms by simp
  then have "\<forall>x\<in>set xs. x = hd xs" using a by blast
  then show "std xs = 0" using mean_const[OF assms, of "hd xs"] std_zero_iff[OF assms] by simp
qed


lemma zscore_singleton: "zscore [x] = [None]"
  by (simp add: zscore_def std_def mean_def)

lemma zscore_nth:
  "std xs \<noteq> 0 \<Longrightarrow> i < length xs \<Longrightarrow> zscore xs ! i = Some ((xs ! i - mean xs) / std xs)"
  by (simp add: zscore_def)

lemma zscore_1_3: "zscore [1, 3] = [Some (- 1), Some 1]"
  by (simp add: zscore_def std_def mean_def)

text \<open>
  Claim C4, as stated, fails: on the scores 1 and 3 the source gives the second member the
  z-score 1, the sample standard deviation would give \<open>1 / sqrt 2\<close>.
\<close>

theorem zscore_sample_std_counterexample:
  "zscore [1, 3] ! 1 \<noteq> Some ((3 - mean [1, 3]) / sample_std [1, 3])"
proof -
  have "sample_std [1, 3] = sqrt 2" by (simp add: sample_std_def mean_def)
  moreover have "sqrt 2 \<noteq> (1::real)"
    by (metis real_sqrt_eq_1_iff numeral_eq_one_iff semiring_norm(85))
  ultimately show ?thesis by (simp add: zscore_1_3 mean_def)
qed

lemma outliers_singleton: "outliers oz msd m [h] = []"
  by (simp add: outliers_def zscore_singleton is_outlier_def)

text \<open>
  Claim C4, amended. When the scores of a group are not all the same, the z-score of each
  member is \<open>(score - mean) / std\<close> with the population standard deviation (divisor \<open>n\<close>);
  this is the case exactly when two scores differ. For a group of one member the z-score is
  undefined (\<open>NaN\<close>), nothing is a score outlier, and the group is handled by the
  content-only path.
\<close>

theorem zscore_population:
  "(std xs \<noteq> 0 \<longrightarrow>
      (\<forall>i<length xs. zscore xs ! i =
         Some ((xs ! i - mean xs) / sqrt (sum_list (map (\<lambda>x. (x - mean xs)\<^sup>2) xs) / real (length xs)))))
   \<and> (xs \<noteq> [] \<longrightarrow> (std xs \<noteq> 0 \<longleftrightarrow> (\<exists>x\<in>set xs. \<exists>y\<in>set xs. x \<noteq> y)))
   \<and> zscore [x] = [None]
   \<and> outliers outlier_z min_score_diff m [h] = []
   \<and> recover_content_group base not_by_score outlier_z min_score_diff rnd [h] upd
       = flag_representative base rnd [Scaffold h] upd"
proof -
  have a: "zscore xs ! i = Some ((xs ! i - mean xs) / sqrt (sum_list (map (\<lambda>x. (x - mean xs)\<^sup>2) xs) / real (length xs)))"
    if "std xs \<noteq> 0" "i < length xs" for i
    using zscore_nth[OF that] by (simp add: std_def)
  have b: "std xs \<noteq> 0 \<longleftrightarrow> (\<exists>x\<in>set xs. \<exists>y\<in>set xs. x \<noteq> y)" if "xs \<noteq> []"
    using std_zero_iff_constant[OF that] by blast
  have c: "recover_content_group base not_by_score outlier_z min_score_diff rnd [h] upd
       = flag_representative base rnd [Scaffold h] upd"
    by (simp add: recover_content_group_def mode_score_def zscore_singleton)
  show ?thesis using a b c zscore_singleton outliers_singleton by blast
qed

theorem zscore_population_witness:
  "std [1, 3] \<noteq> 0 \<and> (1::nat) < length [1::real, 3] \<and> zscore [1, 3] ! 1 = Some 1
   \<and> (\<exists>x\<in>set [1::real, 3]. \<exists>y\<in>set [1, 3]. x \<noteq> y)"
proof -
  have s: "std [1, 3] = 1" by (simp add: std_def mean_def)
  then have n: "std [1, 3] \<noteq> 0" by simp
  from zscore_population[of "[1, 3]"] n
  have "zscore [1, 3] ! 1 =
      Some (([1, 3] ! 1 - mean [1, 3]) / sqrt (sum_list (map (\<lambda>x. (x - mean [1, 3])\<^sup>2) [1, 3]) / real (length [1::real, 3])))"
    by simp
  moreover from zscore_population[of "[1, 3]"] n
  have "\<exists>x\<in>set [1::real, 3]. \<exists>y\<in>set [1, 3]. x \<noteq> y" by blast
  ultimately show ?thesis using n by (simp add: mean_def)
qed

subsection \<open>Scenario C\<close>

lemma sqrt3_bounds: "3 / 2 < sqrt 3" "sqrt 3 < 2"
proof -
  show "3 / 2 < sqrt 3" by (rule real_less_rsqrt) (simp add: power2_eq_square)
  show "sqrt 3 < 2" by (rule real_less_lsqrt) (simp_all add: power2_eq_square)
qed

lemma scenC_std: "std [5, 5, 5, 9] = sqrt 3"
  by (simp add: std_def mean_def)

lemma scenC_zscore:
  "zscore [5, 5, 5, 9] = [Some (- 1 / sqrt 3), Some (- 1 / sqrt 3), Some (- 1 / sqrt 3), Some (3 / sqrt 3)]"
  using sqrt3_bounds by (simp add: zscore_def scenC_std) (simp add: mean_def)

lemma scenC_z_small: "\<not> 2 \<le> \<bar>3 / sqrt 3\<bar>"
proof -
  have "3 < 2 * sqrt 3" using sqrt3_bounds by simp
  then have "3 / sqrt 3 < 2" using sqrt3_bounds by (simp add: field_simps)
  moreover have "0 < 3 / sqrt 3" using sqrt3_bounds by simp
  ultimately show ?thesis by simp
qed

lemma scenC_mode: "mode_score [5, 5, 5, 9] = Inr 5"
  by (simp add: mode_score_def)

lemma scenC_outliers:
  "outliers 2 (1 / 10) 5
     [\<lparr>Scaffold = ''h1'', content = [1], Score = 5\<rparr>,
      \<lparr>Scaffold = ''h2'', content = [1], Score = 5\<rparr>,
      \<lparr>Scaffold = ''h3'', content = [1], Score = 5\<rparr>,
      \<lparr>Scaffold = ''h4'', content = [1], Score = 9\<rparr>] = []"
  using scenC_z_small by (simp add: outliers_def scenC_zscore is_outlier_def)

lemma scenC_run:
  "recover_hits scenC_hits scenC_base False False 2 (1 / 10) rnd =
     Inr (sort_values (set_status ([''h1'', ''h2'', ''h3'', ''h4''] ! (rnd [''h1'', ''h2'', ''h3'', ''h4''] mod 4))
            readded_by_cluster_content scenC_base))"
  by (simp add: recover_hits_def recover_hits_in_order_def genome_groups_def content_groups_def
      recover_content_group_def scenC_mode scenC_zscore scenC_outliers
      flag_representative_def loc_status_def choice_def scenC_hits_def scenC_base_def)

text \<open>
  Claim C3, as stated, fails: in Scenario C the z-score of the score 9 is \<open>sqrt 3\<close>, below the
  threshold 2, so the run that draws the first member leaves the scaffold with score 9
  redundant.
\<close>

theorem scenario_C_counterexample:
  "recover_hits scenC_hits scenC_base False False 2 (1 / 10) pick_first = Inr scenC_first
   \<and> status_in scenC_first ''h4'' = Some redundant"
  unfolding scenC_run
  by (simp add: pick_first_def set_status_def sort_values_def sort_key_of_def
      scenC_base_def scenC_first_def status_in_def)

text \<open>
  Claim C3, amended. In Scenario C every run returns a table of the four scaffolds in which
  no scaffold is marked \<open>readded_by_outlier_score\<close>, exactly one is marked
  \<open>readded_by_cluster_content\<close> and the three others are redundant.
\<close>

theorem scenario_C:
  "\<exists>t. recover_hits scenC_hits scenC_base False False 2 (1 / 10) rnd = Inr t
     \<and> list_all (\<lambda>r. dereplication_status r \<noteq> readded_by_outlier_score) t
     \<and> length (filter (\<lambda>r. dereplication_status r = readded_by_cluster_content) t) = 1
     \<and> length (filter (\<lambda>r. dereplication_status r = redundant) t) = 3
     \<and> length t = 4"
proof -
  define k where "k = rnd [''h1'', ''h2'', ''h3'', ''h4''] mod 4"
  have "k < 4" by (simp add: k_def)
  then consider "k = 0" | "k = 1" | "k = 2" | "k = 3" by linarith
  then show ?thesis
  proof cases
    case 1
    then show ?thesis unfolding scenC_run k_def[symmetric]
      by (simp add: set_status_def sort_values_def sort_key_of_def scenC_base_def)
  next
    case 2
    then show ?thesis unfolding scenC_run k_def[symmetric]
      by (simp add: set_status_def sort_values_def sort_key_of_def scenC_base_def)
  next
    case 3
    then show ?thesis unfolding scenC_run k_def[symmetric]
      by (simp add: set_status_def sort_values_def sort_key_of_def scenC_base_def)
  next
    case 4
    then show ?thesis unfolding scenC_run k_def[symmetric]
      by (simp add: set_status_def sort_values_def sort_key_of_def scenC_base_def)
  qed
qed

subsection \<open>The modal score and the non-outliers\<close>







subsection \<open>Parsing the clustering table\<close>

lemma ex_extract_1: "extract_assembly ''g/GCA_000000001.1_a.fna'' = Inr ''GCA_000000001.1''"
  by (simp add: extract_assembly_def match_here_def)

lemma ex_extract_2: "extract_assembly ''g/GCF_000000002.12.fna'' = Inr ''GCF_000000002.12''"
  by (simp add: extract_assembly_def match_here_def)

lemma ex_extract_none: "findall_first ''g/GCF_00002.1.fna'' = None"
  by (simp add: match_here_def)

lemma ex_parse: "parse_dereplication_clusters ex_skder ex_pairs = Inr ex_parsed"
  by (simp add: parse_dereplication_clusters_def ex_skder_def ex_extract_1 ex_extract_2 remap_type_label_def
      ex_pairs_def add_record_def map_scaffolds_def dict_set_def sort_values_def sort_key_of_def
      ex_parsed_def)


lemma convert_extract_fails:
  assumes "\<exists>p\<in>set ps. findall_first p = None"
  shows "convert extract_assembly ps = Inl IndexError"
  using assms
proof (induction ps)
  case Nil
  then show ?case by simp
next
  case (Cons p ps)
  show ?case
  proof (cases "findall_first p")
    case None
    then have "extract_assembly p = Inl IndexError" by (simp add: extract_assembly_def)
    then show ?thesis by simp
  next
    case (Some a)
    then have "convert extract_assembly ps = Inl IndexError" using Cons by auto
    moreover have "extract_assembly p = Inr a" using Some by (simp add: extract_assembly_def)
    ultimately show ?thesis by simp
  qed
qed

lemma extract_assembly_error: "extract_assembly p = Inl e \<Longrightarrow> e = IndexError"
  by (simp add: extract_assembly_def split: option.splits)

lemma convert_extract_error:
  "convert extract_assembly ps = Inl e \<Longrightarrow> e = IndexError"
  by (induction ps arbitrary: e)
     (auto split: sum.splits dest: extract_assembly_error)

text \<open>
  Claim C8. When the path of the assembly or of the representative in some clustering
  record holds no match of the accession pattern, \<open>parse_dereplication_clusters\<close> raises
  (the \<^verbatim>\<open>IndexError\<close> of indexing the empty list of matches) and returns no table,
  and the run ends with that exception before \<open>recover_hits\<close> is reached.
\<close>

theorem unparseable_accession_aborts:
  assumes "\<exists>r\<in>set skder. findall_first (fst r) = None \<or> findall_first (fst (snd r)) = None"
  shows "parse_dereplication_clusters skder scaffold_assembly_pairs = Inl IndexError
       \<and> main_from_parsing skder scaffold_assembly_pairs hits no_revisit_by_content
             no_revisit_by_score outlier_z min_score_diff rnd = Inl IndexError"
proof -
  have p: "parse_dereplication_clusters skder scaffold_assembly_pairs = Inl IndexError"
  proof (cases "\<exists>p\<in>set (map fst skder). findall_first p = None")
    case True
    then show ?thesis
      using convert_extract_fails[OF True] by (simp add: parse_dereplication_clusters_def)
  next
    case False
    then have "\<exists>p\<in>set (map (\<lambda>r. fst (snd r)) skder). findall_first p = None"
      using assms by auto
    then have r: "convert extract_assembly (map (\<lambda>r. fst (snd r)) skder) = Inl IndexError"
      by (rule convert_extract_fails)
    show ?thesis
    proof (cases "convert extract_assembly (map fst skder)")
      case (Inl e)
      then show ?thesis
        using convert_extract_error[OF Inl] by (simp add: parse_dereplication_clusters_def)
    next
      case (Inr a)
      then show ?thesis using r by (simp add: parse_dereplication_clusters_def)
    qed
  qed
  then show ?thesis by (simp add: main_from_parsing_def)
qed

theorem unparseable_accession_aborts_witness:
  "(\<exists>r\<in>set bad_skder. findall_first (fst r) = None \<or> findall_first (fst (snd r)) = None)
   \<and> parse_dereplication_clusters bad_skder ex_pairs = Inl IndexError
   \<and> main_from_parsing bad_skder ex_pairs ex_hits False False 2 (1 / 10) pick_first = Inl IndexError"
proof -
  have h: "\<exists>r\<in>set bad_skder. findall_first (fst r) = None \<or> findall_first (fst (snd r)) = None"
    using ex_extract_none by (simp add: bad_skder_def)
  show ?thesis
    using h unparseable_accession_aborts[OF h, of ex_pairs ex_hits False False 2 "1 / 10" pick_first]
    by blast
qed

subsection \<open>The parsed table\<close>

lemma dict_set_scaffolds:
  "map scaffold (dict_set r t) =
     (if scaffold r \<in> set (map scaffold t) then map scaffold t else map scaffold t @ [scaffold r])"
  by (induction t) (auto simp: dict_set_def)

lemma dict_set_distinct:
  "distinct (map scaffold t) \<Longrightarrow> distinct (map scaffold (dict_set r t))"
  by (simp add: dict_set_scaffolds)

lemma dict_set_rows: "x \<in> set (dict_set r t) \<Longrightarrow> x = r \<or> x \<in> set t"
  by (auto simp: dict_set_def split: if_splits)

lemma fold_dict_set_distinct:
  "distinct (map scaffold t) \<Longrightarrow> distinct (map scaffold (fold (\<lambda>s. dict_set (f s)) ss t))"
  by (induction ss arbitrary: t) (simp_all add: dict_set_distinct)

lemma fold_dict_set_rows:
  "x \<in> set (fold (\<lambda>s. dict_set (f s)) ss t) \<Longrightarrow> x \<in> f ` set ss \<or> x \<in> set t"
proof (induction ss arbitrary: t)
  case Nil
  then show ?case by simp
next
  case (Cons s ss)
  from Cons.IH[of "dict_set (f s) t"] Cons.prems
  have "x \<in> f ` set ss \<or> x \<in> set (dict_set (f s) t)" by simp
  then show ?case using dict_set_rows[of x "f s" t] by auto
qed

lemma add_record_distinct:
  "distinct (map scaffold t) \<Longrightarrow> distinct (map scaffold (add_record pairs rec t))"
  unfolding add_record_def by (rule fold_dict_set_distinct)

lemma add_record_rows:
  "x \<in> set (add_record pairs rec t) \<Longrightarrow> dereplication_status x = snd (snd rec) \<or> x \<in> set t"
  unfolding add_record_def using fold_dict_set_rows by fastforce

lemma fold_add_record_distinct:
  "distinct (map scaffold t) \<Longrightarrow> distinct (map scaffold (fold (add_record pairs) recs t))"
  by (induction recs arbitrary: t) (simp_all add: add_record_distinct)

lemma fold_add_record_rows:
  "x \<in> set (fold (add_record pairs) recs t) \<Longrightarrow>
     dereplication_status x \<in> (\<lambda>rec. snd (snd rec)) ` set recs \<or> x \<in> set t"
proof (induction recs arbitrary: t)
  case Nil
  then show ?case by simp
next
  case (Cons rec recs)
  from Cons.IH[of "add_record pairs rec t"] Cons.prems
  have "dereplication_status x \<in> (\<lambda>rec. snd (snd rec)) ` set recs
        \<or> x \<in> set (add_record pairs rec t)" by simp
  then show ?case using add_record_rows[of x pairs rec t] by auto
qed

lemma convert_remap_statuses:
  "convert remap_type_label ls = Inr sts \<Longrightarrow>
     \<forall>st\<in>set sts. st = dereplication_representative \<or> st = redundant"
  by (induction ls arbitrary: sts)
     (auto simp: remap_type_label_def split: sum.splits if_splits)

lemma distinct_sort_values:
  "distinct (map scaffold (sort_values t)) \<longleftrightarrow> distinct (map scaffold t)"
proof -
  have "mset (map scaffold (sort_values t)) = mset (map scaffold t)"
    by (simp add: mset_sort_values)
  then show ?thesis by (rule mset_eq_imp_distinct_iff)
qed

text \<open>
  The table \<open>parse_dereplication_clusters\<close> returns is keyed by scaffold, holds the statuses
  representative and redundant only, and is sorted by representative and status.
\<close>

lemma parse_dereplication_clusters_table:
  assumes "parse_dereplication_clusters skder pairs = Inr t"
  shows "distinct (map scaffold t) \<and> base_table t \<and> sorted (map sort_key_of t)"
proof -
  from assms obtain assemblies representatives statuses where
    st: "convert remap_type_label (map (\<lambda>r. snd (snd r)) skder) = Inr statuses"
    and t: "t = sort_values (fold (add_record pairs)
                (sort_key (\<lambda>r. (fst (snd r), status_label (snd (snd r))))
                   (zip assemblies (zip representatives statuses))) [])"
    by (auto simp: parse_dereplication_clusters_def Let_def split: sum.splits if_splits)
  let ?df = "sort_key (\<lambda>r. (fst (snd r), status_label (snd (snd r))))
                   (zip assemblies (zip representatives statuses))"
  have d: "distinct (map scaffold t)"
    using fold_add_record_distinct[of "[]" pairs ?df] t by (simp add: distinct_sort_values)
  have "\<forall>rec\<in>set ?df. snd (snd rec) \<in> set statuses"
    by (auto dest!: set_zip_rightD)
  then have "\<forall>x\<in>set t. dereplication_status x \<in> set statuses"
    using fold_add_record_rows[of _ pairs ?df "[]"] t by (fastforce simp: set_sort_values)
  then have b: "base_table t"
    using convert_remap_statuses[OF st] by (auto simp: base_table_def list_all_iff)
  show ?thesis using d b t by (simp add: sorted_sort_values)
qed

lemma ex_parsed_table:
  "distinct (map scaffold ex_parsed) \<and> base_table ex_parsed \<and> sorted (map sort_key_of ex_parsed)"
  using parse_dereplication_clusters_table[OF ex_parse] .

subsection \<open>Content recovery disabled, and the retained scaffolds\<close>

text \<open>
  Claim C6. With content recovery disabled \<open>recover_hits\<close> returns the rows of the base
  table, sorted by representative and status: the same rows (so every scaffold keeps its
  status, a table that is already sorted is returned as it is, and a base table stays a
  base table: no row is marked \<open>readded_by_outlier_score\<close>), whatever \<open>not_by_score\<close> is.
  The table \<open>parse_dereplication_clusters\<close> builds is sorted, so it is returned unchanged.
\<close>

theorem recover_hits_not_by_content:
  "recover_hits hits base True not_by_score outlier_z min_score_diff rnd = Inr (sort_values base)
   \<and> mset (sort_values base) = mset base
   \<and> (sorted (map sort_key_of base) \<longrightarrow> sort_values base = base)
   \<and> (distinct (map scaffold base) \<longrightarrow>
        (\<forall>s. status_in (sort_values base) s = status_in base s))
   \<and> (base_table base \<longrightarrow>
        list_all (\<lambda>r. dereplication_status r \<noteq> readded_by_outlier_score) (sort_values base))
   \<and> (parse_dereplication_clusters skder scaffold_assembly_pairs = Inr base \<longrightarrow>
        recover_hits hits base True not_by_score outlier_z min_score_diff rnd = Inr base)"
proof -
  have p: "recover_hits hits base True not_by_score outlier_z min_score_diff rnd = Inr base"
    if "parse_dereplication_clusters skder scaffold_assembly_pairs = Inr base"
    using parse_dereplication_clusters_table[OF that]
    by (simp add: recover_hits_def recover_hits_in_order_def sort_values_sorted)
  have "list_all (\<lambda>r. dereplication_status r \<noteq> readded_by_outlier_score) (sort_values base)"
    if "base_table base"
    using that by (auto simp: base_table_def list_all_iff set_sort_values)
  then show ?thesis
    using p
    by (simp add: recover_hits_def recover_hits_in_order_def mset_sort_values
        sort_values_sorted status_in_sort_values)
qed

theorem recover_hits_not_by_content_witness:
  "sorted (map sort_key_of ex_base) \<and> distinct (map scaffold ex_base) \<and> base_table ex_base
   \<and> recover_hits ex_hits ex_base True False 1 (1 / 10) pick_first = Inr ex_base
   \<and> status_in (sort_values ex_base) ''s2'' = status_in ex_base ''s2''
   \<and> list_all (\<lambda>r. dereplication_status r \<noteq> readded_by_outlier_score) (sort_values ex_base)
   \<and> parse_dereplication_clusters ex_skder ex_pairs = Inr ex_parsed
   \<and> recover_hits ex_hits ex_parsed True False 1 (1 / 10) pick_first = Inr ex_parsed"
proof -
  from recover_hits_not_by_content[of ex_hits ex_parsed False 1 "1 / 10" pick_first ex_skder ex_pairs]
    ex_parse
  have q: "recover_hits ex_hits ex_parsed True False 1 (1 / 10) pick_first = Inr ex_parsed"
    by blast
  have s: "sorted (map sort_key_of ex_base)"
    by (simp add: ex_base_def sort_key_of_def)
  have bt: "base_table ex_base" by (simp add: base_table_def ex_base_def)
  note T = recover_hits_not_by_content[of ex_hits ex_base False 1 "1 / 10" pick_first]
  from T s have "sort_values ex_base = ex_base" by blast
  with T s bt ex_base_distinct q ex_parse show ?thesis by simp
qed



subsection \<open>The effect of one content group on a status\<close>






























subsection \<open>The groups partition the scaffolds\<close>














subsection \<open>The order of the loops\<close>






subsection \<open>Two runs, and a second pass\<close>








subsection \<open>Score outliers\<close>











subsection \<open>A second pass\<close>






















end
